theory Spec2Isabelle
  imports Complex_Main
begin

section \<open>JavaScript strings\<close>

text \<open>
  Strings of \<^verbatim>\<open>src/services/chat.js\<close> are modelled as \<^typ>\<open>string\<close>: a list of code
  units, each below 256. \<open>toLowerCase\<close> maps the upper-case letters of that range (A to Z
  and the Latin-1 capitals except the multiplication sign) to their lower-case code unit,
  as \<^verbatim>\<open>String.prototype.toLowerCase\<close> does there.
\<close>

definition toLowerCase_char :: "char \<Rightarrow> char" where
  "toLowerCase_char c =
     (let n = (of_char c :: nat) in
      if (65 \<le> n \<and> n \<le> 90) \<or> (192 \<le> n \<and> n \<le> 222 \<and> n \<noteq> 215)
      then char_of (n + 32) else c)"

definition toLowerCase :: "string \<Rightarrow> string" where
  "toLowerCase s = map toLowerCase_char s"

text \<open>\<^verbatim>\<open>s.startsWith(p)\<close>\<close>

definition startsWith :: "string \<Rightarrow> string \<Rightarrow> bool" where
  "startsWith s p = (take (length p) s = p)"

text \<open>\<^verbatim>\<open>s.includes(n)\<close>: \<open>n\<close> occurs in \<open>s\<close> at some position.\<close>

fun includes_str :: "string \<Rightarrow> string \<Rightarrow> bool" where
  "includes_str [] n = (n = [])"
| "includes_str (c # cs) n = (startsWith (c # cs) n \<or> includes_str cs n)"

text \<open>
  White space and line terminators of JavaScript among the code units below 256: tab, line
  feed, vertical tab, form feed, carriage return, space and no-break space.
\<close>

definition is_js_space :: "char \<Rightarrow> bool" where
  "is_js_space c = ((of_char c :: nat) \<in> {9, 10, 11, 12, 13, 32, 160})"

definition trimStart :: "string \<Rightarrow> string" where
  "trimStart s = dropWhile is_js_space s"

definition trimEnd :: "string \<Rightarrow> string" where
  "trimEnd s = rev (dropWhile is_js_space (rev s))"

definition trim :: "string \<Rightarrow> string" where
  "trim s = trimEnd (trimStart s)"

text \<open>\<^verbatim>\<open>s.split(c)\<close> for a one-character separator: never the empty list.\<close>

fun split_on :: "char \<Rightarrow> string \<Rightarrow> string list" where
  "split_on sep [] = [[]]"
| "split_on sep (c # cs) =
     (if c = sep then [] # split_on sep cs
      else (case split_on sep cs of
              [] \<Rightarrow> [[c]]
            | w # ws \<Rightarrow> (c # w) # ws))"

text \<open>\<^verbatim>\<open>xs.join(sep)\<close>\<close>

fun join :: "string \<Rightarrow> string list \<Rightarrow> string" where
  "join sep [] = []"
| "join sep [x] = x"
| "join sep (x # y # ys) = x @ sep @ join sep (y # ys)"

section \<open>Provider profile: \<^verbatim>\<open>detectApiFormat\<close>\<close>

text \<open>
  \<open>explicitFormat\<close> is optional: \<open>None\<close> is \<^verbatim>\<open>undefined\<close>. The empty string is falsy.
\<close>

definition detectApiFormat :: "string \<Rightarrow> string option \<Rightarrow> string" where
  "detectApiFormat baseUrl explicitFormat =
     (if (case explicitFormat of
            None \<Rightarrow> False
          | Some f \<Rightarrow> f \<noteq> [] \<and> f \<in> set [''openai'', ''gemini'', ''claude''])
      then the explicitFormat
      else
        (let url = toLowerCase baseUrl in
         if includes_str url ''generativelanguage.googleapis.com'' \<or>
            includes_str url ''aiplatform.googleapis.com'' \<or>
            includes_str url ''gemini'' then ''gemini''
         else if includes_str url ''anthropic.com'' \<or>
            includes_str url ''claude'' \<or>
            includes_str url ''api.anthropic'' then ''claude''
         else ''openai''))"

section \<open>Messages\<close>

text \<open>
  An item of an array content: \<^verbatim>\<open>{type, text?, image_url?: {url}}\<close>. \<open>item_url\<close> is
  \<^verbatim>\<open>item.image_url?.url\<close>, \<open>None\<close> when \<^verbatim>\<open>image_url\<close> or its \<^verbatim>\<open>url\<close> is absent;
  \<open>item_text\<close> is \<open>None\<close> when the item has no \<^verbatim>\<open>text\<close>.
\<close>

record content_item =
  item_type :: string
  item_text :: "string option"
  item_url :: "string option"

text \<open>The content of a message is a string or an array of items (the \<^verbatim>\<open>Message\<close> typedef).\<close>

datatype message_content = Str string | Arr "content_item list"

record message =
  role :: string
  content :: message_content

text \<open>A message as stored in the history: with the two fields \<^verbatim>\<open>callAPI\<close> strips.\<close>

record stored_message = message +
  reasoning_content :: "string option"
  updating :: "bool option"

text \<open>
  \<^verbatim>\<open>header.match(/data:([^;]+)/)?.[1]\<close>: the leftmost position where \<^verbatim>\<open>data:\<close> is followed
  by at least one character other than a semicolon; the group is the longest run of such
  characters. \<open>None\<close> when the pattern does not match.
\<close>

fun match_data_mime :: "string \<Rightarrow> string option" where
  "match_data_mime [] = None"
| "match_data_mime (c # cs) =
     (if startsWith (c # cs) ''data:'' \<and>
         takeWhile (\<lambda>d. d \<noteq> CHR '';'') (drop 5 (c # cs)) \<noteq> []
      then Some (takeWhile (\<lambda>d. d \<noteq> CHR '';'') (drop 5 (c # cs)))
      else match_data_mime cs)"

text \<open>
  \<^verbatim>\<open>const [header, base64] = dataUrl.split(',')\<close>: the first two pieces of the split; the
  second is \<^verbatim>\<open>undefined\<close> when the URL has no comma.
\<close>

definition split_header :: "string \<Rightarrow> string" where
  "split_header dataUrl = hd (split_on CHR '','' dataUrl)"

definition split_base64 :: "string \<Rightarrow> string option" where
  "split_base64 dataUrl =
     (case split_on CHR '','' dataUrl of
        _ # b # _ \<Rightarrow> Some b
      | _ \<Rightarrow> None)"

definition mime_of_header :: "string \<Rightarrow> string" where
  "mime_of_header header =
     (case match_data_mime header of Some m \<Rightarrow> m | None \<Rightarrow> ''image/png'')"

section \<open>Gemini: \<^verbatim>\<open>convertToGeminiFormat\<close>\<close>

text \<open>A part is \<^verbatim>\<open>{text}\<close> or \<^verbatim>\<open>{inline_data: {mime_type, data}}\<close>.\<close>

datatype gemini_part = Text_part "string option" | Inline_data string "string option"

record gemini_turn =
  g_role :: string
  g_parts :: "gemini_part list"

record gemini_body =
  contents :: "gemini_turn list"
  systemInstruction :: "gemini_part list option"

text \<open>The parts one item of an array content pushes (lines 90 to 105): none or one.\<close>

definition gemini_item_parts :: "content_item \<Rightarrow> gemini_part list" where
  "gemini_item_parts item =
     (if item_type item = ''text'' then [Text_part (item_text item)]
      else if item_type item = ''image_url'' \<and>
              (case item_url item of None \<Rightarrow> False | Some u \<Rightarrow> u \<noteq> [])
      then (let dataUrl = the (item_url item) in
            if startsWith dataUrl ''data:''
            then [Inline_data (mime_of_header (split_header dataUrl)) (split_base64 dataUrl)]
            else [])
      else [])"

fun gemini_parts :: "message_content \<Rightarrow> gemini_part list" where
  "gemini_parts (Str s) = [Text_part (Some s)]"
| "gemini_parts (Arr items) = concat (map gemini_item_parts items)"

text \<open>
  The text of a system message: the content itself when it is a string, else
  \<^verbatim>\<open>JSON.stringify(msg.content)\<close>, which is the parameter \<open>stringify\<close>.
\<close>

definition system_text :: "(content_item list \<Rightarrow> string) \<Rightarrow> message \<Rightarrow> string" where
  "system_text stringify msg =
     (case content msg of Str s \<Rightarrow> s | Arr items \<Rightarrow> stringify items)"

text \<open>The loop over the messages, on the two variables it updates.\<close>

fun gemini_loop ::
  "(content_item list \<Rightarrow> string) \<Rightarrow> message list \<Rightarrow> gemini_body \<Rightarrow> gemini_body" where
  "gemini_loop stringify [] acc = acc"
| "gemini_loop stringify (msg # msgs) acc =
     (if role msg = ''system''
      then gemini_loop stringify msgs
             (acc\<lparr>systemInstruction := Some [Text_part (Some (system_text stringify msg))]\<rparr>)
      else
        (let r = (if role msg = ''assistant'' then ''model'' else ''user'');
             parts = gemini_parts (content msg) in
         if length parts > 0
         then gemini_loop stringify msgs
                (acc\<lparr>contents := contents acc @ [\<lparr>g_role = r, g_parts = parts\<rparr>]\<rparr>)
         else gemini_loop stringify msgs acc))"

definition convertToGeminiFormat ::
  "(content_item list \<Rightarrow> string) \<Rightarrow> message list \<Rightarrow> gemini_body" where
  "convertToGeminiFormat stringify msgs =
     gemini_loop stringify msgs \<lparr>contents = [], systemInstruction = None\<rparr>"

section \<open>Claude: \<^verbatim>\<open>convertToClaudeFormat\<close>\<close>

text \<open>
  A content block is \<^verbatim>\<open>{type: 'text', text}\<close> or
  \<^verbatim>\<open>{type: 'image', source: {type: 'base64', media_type, data}}\<close>.
\<close>

datatype claude_part = Text_block "string option" | Image_block string "string option"

record claude_turn =
  c_role :: string
  c_content :: "claude_part list"

record claude_body =
  messages :: "claude_turn list"
  system :: string

definition claude_item_parts :: "content_item \<Rightarrow> claude_part list" where
  "claude_item_parts item =
     (if item_type item = ''text'' then [Text_block (item_text item)]
      else if item_type item = ''image_url'' \<and>
              (case item_url item of None \<Rightarrow> False | Some u \<Rightarrow> u \<noteq> [])
      then (let dataUrl = the (item_url item) in
            if startsWith dataUrl ''data:''
            then [Image_block (mime_of_header (split_header dataUrl)) (split_base64 dataUrl)]
            else [])
      else [])"

fun claude_parts :: "message_content \<Rightarrow> claude_part list" where
  "claude_parts (Str s) = [Text_block (Some s)]"
| "claude_parts (Arr items) = concat (map claude_item_parts items)"

fun claude_loop ::
  "(content_item list \<Rightarrow> string) \<Rightarrow> message list \<Rightarrow> claude_body \<Rightarrow> claude_body" where
  "claude_loop stringify [] acc = acc"
| "claude_loop stringify (msg # msgs) acc =
     (if role msg = ''system''
      then claude_loop stringify msgs
             (acc\<lparr>system := system acc @ (if system acc \<noteq> [] then ''\<newline>\<newline>'' else [])
                                @ system_text stringify msg\<rparr>)
      else
        (let c = claude_parts (content msg) in
         if length c > 0
         then claude_loop stringify msgs
                (acc\<lparr>messages := messages acc @ [\<lparr>c_role = role msg, c_content = c\<rparr>]\<rparr>)
         else claude_loop stringify msgs acc))"

definition convertToClaudeFormat ::
  "(content_item list \<Rightarrow> string) \<Rightarrow> message list \<Rightarrow> claude_body" where
  "convertToClaudeFormat stringify msgs =
     claude_loop stringify msgs \<lparr>messages = [], system = []\<rparr>"

section \<open>Errors and effects\<close>

text \<open>
  A thrown value: its \<^verbatim>\<open>name\<close>, its \<^verbatim>\<open>message\<close> and its \<^verbatim>\<open>code\<close> (\<open>None\<close> when it has
  none). The texts of the engine's own messages are not modelled.
\<close>

record js_error =
  err_name :: string
  err_message :: string
  err_code :: "string option"

definition plain_error :: "string \<Rightarrow> js_error" where
  "plain_error msg = \<lparr>err_name = ''Error'', err_message = msg, err_code = None\<rparr>"

definition syntax_error :: js_error where
  "syntax_error = \<lparr>err_name = ''SyntaxError'', err_message = [], err_code = None\<rparr>"

definition type_error :: js_error where
  "type_error = \<lparr>err_name = ''TypeError'', err_message = [], err_code = None\<rparr>"

text \<open>The error of lines 422 to 424.\<close>

definition misfiled_error :: js_error where
  "misfiled_error =
     \<lparr>err_name = ''Error'',
      err_message = ''Detected misfiled reasoning content in content field'',
      err_code = Some ''CEREBR_MISFILED_THINK_SILENTLY''\<rparr>"

text \<open>The accumulator \<^verbatim>\<open>currentMessage\<close>.\<close>

record accumulated_message =
  acc_content :: string
  acc_reasoning_content :: string

text \<open>
  What the code does to the outside, in order. \<open>UpdateLastMessage\<close> and \<open>OnMessageUpdate\<close>
  carry the copy of the accumulator they are called with.
\<close>

datatype effect =
    NewAbortController
  | Fetch
  | UpdateLastMessage accumulated_message
  | OnMessageUpdate accumulated_message
  | ConsoleError js_error
  | ReaderCancel

text \<open>The snapshots handed to the store, in order.\<close>

fun dispatched :: "effect list \<Rightarrow> accumulated_message list" where
  "dispatched [] = []"
| "dispatched (UpdateLastMessage m # es) = m # dispatched es"
| "dispatched (e # es) = dispatched es"

text \<open>A statement block either completes or throws; both leave a state behind.\<close>

datatype 'a completion = Normal 'a | Throw js_error 'a

section \<open>Parsed records\<close>

text \<open>
  The value \<^verbatim>\<open>JSON.parse\<close> returns. An object is its list of members, looked up by name
  with \<open>map_of\<close>. \<^verbatim>\<open>undefined\<close> is not a JSON value: the result of reading a property is
  a \<open>json option\<close>, \<open>None\<close> for \<^verbatim>\<open>undefined\<close>.
\<close>

datatype json =
    JNull
  | JBool bool
  | JNum real
  | JStr string
  | JArr "json list"
  | JObj "(string \<times> json) list"

fun truthy :: "json option \<Rightarrow> bool" where
  "truthy None = False"
| "truthy (Some JNull) = False"
| "truthy (Some (JBool b)) = b"
| "truthy (Some (JNum x)) = (x \<noteq> 0)"
| "truthy (Some (JStr s)) = (s \<noteq> [])"
| "truthy (Some (JArr xs)) = True"
| "truthy (Some (JObj kvs)) = True"

text \<open>
  \<^verbatim>\<open>v.k\<close> for a value that is not \<^verbatim>\<open>null\<close>, at the names this file reads (\<^verbatim>\<open>choices\<close>,
  \<^verbatim>\<open>delta\<close>, \<^verbatim>\<open>content\<close>, \<^verbatim>\<open>reasoning_content\<close>, \<^verbatim>\<open>candidates\<close>, \<^verbatim>\<open>parts\<close>, \<^verbatim>\<open>text\<close>,
  \<^verbatim>\<open>type\<close>, \<^verbatim>\<open>stop_reason\<close>): only an object has them.
\<close>

fun get_prop :: "json \<Rightarrow> string \<Rightarrow> json option" where
  "get_prop (JObj kvs) k = map_of kvs k"
| "get_prop v k = None"

text \<open>\<^verbatim>\<open>v[0]\<close> for a value that is not \<^verbatim>\<open>null\<close>.\<close>

fun index0 :: "json \<Rightarrow> json option" where
  "index0 (JArr xs) = (case xs of [] \<Rightarrow> None | x # _ \<Rightarrow> Some x)"
| "index0 (JObj kvs) = map_of kvs ''0''"
| "index0 (JStr s) = (case s of [] \<Rightarrow> None | c # _ \<Rightarrow> Some (JStr [c]))"
| "index0 v = None"

text \<open>Optional chaining, \<^verbatim>\<open>v?.k\<close> and \<^verbatim>\<open>v?.[0]\<close>.\<close>

fun opt_prop :: "json option \<Rightarrow> string \<Rightarrow> json option" where
  "opt_prop None k = None"
| "opt_prop (Some JNull) k = None"
| "opt_prop (Some v) k = get_prop v k"

fun opt_index0 :: "json option \<Rightarrow> json option" where
  "opt_index0 None = None"
| "opt_index0 (Some JNull) = None"
| "opt_index0 (Some v) = index0 v"

text \<open>
  The functions the code takes from outside this file: the URL normaliser and the lookup of
  localised strings (imported from \<^verbatim>\<open>utils\<close>); \<^verbatim>\<open>JSON.stringify\<close> on an array content;
  whether \<^verbatim>\<open>new URL(u)\<close> accepts \<open>u\<close>; \<^verbatim>\<open>JSON.parse\<close>, \<open>None\<close> when it throws its
  SyntaxError; and the conversion to a string of \<^verbatim>\<open>content += v\<close>.
\<close>

record environment =
  normalizeChatCompletionsUrl :: "string \<Rightarrow> string"
  i18n_t :: "string \<Rightarrow> string"
  JSON_stringify :: "content_item list \<Rightarrow> string"
  URL_valid :: "string \<Rightarrow> bool"
  JSON_parse :: "string \<Rightarrow> json option"
  to_String :: "json \<Rightarrow> string"

section \<open>The system message of \<^verbatim>\<open>callAPI\<close>\<close>

definition placeholder :: string where
  "placeholder = ''{{userLanguage}}''"

text \<open>
  The replacement text of \<^verbatim>\<open>String.prototype.replace\<close> for a pattern without groups:
  \<^verbatim>\<open>$$\<close> is a dollar sign, \<^verbatim>\<open>$&\<close> the matched text, \<^verbatim>\<open>$`\<close> the text before the match,
  \<^verbatim>\<open>$'\<close> the text after it; everything else stands for itself.
\<close>

fun expand_replacement :: "string \<Rightarrow> string \<Rightarrow> string \<Rightarrow> string \<Rightarrow> string" where
  "expand_replacement [] matched preceding after = []"
| "expand_replacement [c] matched preceding after = [c]"
| "expand_replacement (c # d # r) matched preceding after =
     (if c = CHR ''$'' \<and> d = CHR ''$'' then CHR ''$'' # expand_replacement r matched preceding after
      else if c = CHR ''$'' \<and> d = CHR ''&'' then matched @ expand_replacement r matched preceding after
      else if c = CHR ''$'' \<and> d = CHR 0x60 then preceding @ expand_replacement r matched preceding after
      else if c = CHR ''$'' \<and> d = CHR 0x27 then after @ expand_replacement r matched preceding after
      else c # expand_replacement (d # r) matched preceding after)"

text \<open>
  \<^verbatim>\<open>str.replace(/\{\{userLanguage\}\}/gm, repl)\<close>, scanning \<open>rest\<close> from the left; \<open>preceding\<close>
  is the part of the string already passed.
\<close>

function replace_from :: "string \<Rightarrow> string \<Rightarrow> string \<Rightarrow> string" where
  "replace_from preceding rest repl =
     (if rest = [] then []
      else if startsWith rest placeholder
      then expand_replacement repl placeholder preceding (drop (length placeholder) rest)
           @ replace_from (preceding @ placeholder) (drop (length placeholder) rest) repl
      else hd rest # replace_from (preceding @ [hd rest]) (tl rest) repl)"
  by pat_completeness auto
termination
  by (relation "measure (\<lambda>(preceding, rest, repl). length rest)")
     (auto simp: placeholder_def)

declare replace_from.simps [simp del]

definition replace_userLanguage :: "string \<Rightarrow> string \<Rightarrow> string" where
  "replace_userLanguage systemPrompt userLanguage = replace_from [] systemPrompt userLanguage"

record page =
  isCurrent :: bool
  page_title :: string
  page_url :: string
  page_content :: string

text \<open>The template of line 198.\<close>

definition render_page :: "environment \<Rightarrow> page \<Rightarrow> string" where
  "render_page env pg =
     (let prefix = (if isCurrent pg then i18n_t env ''webpage_prefix_current''
                    else i18n_t env ''webpage_prefix_other'');
          titleLabel = i18n_t env ''webpage_title_label'';
          urlLabel = i18n_t env ''webpage_url_label'';
          contentLabel = i18n_t env ''webpage_content_label''
      in ''\<newline>'' @ prefix @ '':\<newline>'' @ titleLabel @ '': '' @ page_title pg
         @ ''\<newline>'' @ urlLabel @ '': '' @ page_url pg
         @ ''\<newline>'' @ contentLabel @ '': '' @ page_content pg)"

text \<open>
  \<open>systemPrompt\<close> is \<^verbatim>\<open>apiConfig.advancedSettings?.systemPrompt\<close>, \<open>modelName\<close> and
  \<open>apiFormat\<close> are optional too.
\<close>

record api_config =
  baseUrl :: string
  apiKey :: string
  modelName :: "string option"
  apiFormat :: "string option"
  systemPrompt :: "string option"

text \<open>\<open>webpageInfo\<close> is \<open>None\<close> when it is \<^verbatim>\<open>null\<close> or has no \<^verbatim>\<open>pages\<close>.\<close>

record api_params =
  param_messages :: "stored_message list"
  apiConfig :: api_config
  userLanguage :: string
  webpageInfo :: "page list option"

text \<open>Lines 186 to 202.\<close>

definition systemMessage :: "environment \<Rightarrow> api_params \<Rightarrow> message" where
  "systemMessage env ps =
     (let prompt0 = (case systemPrompt (apiConfig ps) of
                       None \<Rightarrow> []
                     | Some p \<Rightarrow> p);
          prompt = replace_userLanguage prompt0 (userLanguage ps)
      in \<lparr>role = ''system'',
          content = Str (prompt @
            (case webpageInfo ps of
               Some pages \<Rightarrow> join ''\<newline>\<newline>---\<newline>'' (map (render_page env) pages)
             | None \<Rightarrow> []))\<rparr>)"

text \<open>The content of the system message as a string (it is always one).\<close>

definition systemMessage_text :: "environment \<Rightarrow> api_params \<Rightarrow> string" where
  "systemMessage_text env ps =
     (case content (systemMessage env ps) of Str s \<Rightarrow> s | Arr _ \<Rightarrow> [])"

text \<open>Lines 206 to 213: the two fields are stripped, then the system message goes first.\<close>

definition processedMessages :: "environment \<Rightarrow> api_params \<Rightarrow> message list" where
  "processedMessages env ps =
     (let stripped = map message.truncate (param_messages ps) in
      if trim (systemMessage_text env ps) \<noteq> [] \<and>
         (length stripped = 0 \<or> role (stripped ! 0) \<noteq> ''system'')
      then systemMessage env ps # stripped
      else stripped)"

section \<open>The stream: \<^verbatim>\<open>processStream\<close>\<close>

text \<open>
  \<open>sf_format\<close> is the detected \<^verbatim>\<open>apiFormat\<close>; \<open>sf_sink\<close> says that \<^verbatim>\<open>chatManager && chatId\<close> is
  truthy; \<open>sf_detect\<close> and \<open>sf_prefixes\<close> are the constants \<^verbatim>\<open>detectMisfiledThinkSilently\<close> and
  \<^verbatim>\<open>misfiledThinkSilentlyPrefixes\<close> of lines 329 to 338.
\<close>

record stream_config =
  sf_format :: string
  sf_sink :: bool
  sf_detect :: bool
  sf_prefixes :: "string list"
  sf_env :: environment

text \<open>
  The variables of \<^verbatim>\<open>processStream\<close>. \<open>updateTimeout\<close> holds the time at which the pending
  timer is due, \<open>None\<close> when there is no timer. \<open>trace\<close> records the effects so far.
\<close>

record stream_state =
  buffer :: string
  currentMessage :: accumulated_message
  lastUpdateTime :: int
  updateTimeout :: "int option"
  didDispatchAnyUpdate :: bool
  trace :: "effect list"

definition UPDATE_INTERVAL :: int where
  "UPDATE_INTERVAL = 100"

text \<open>Lines 341 to 354; \<open>now\<close> is \<^verbatim>\<open>Date.now()\<close>.\<close>

definition dispatchUpdate :: "stream_config \<Rightarrow> int \<Rightarrow> stream_state \<Rightarrow> stream_state" where
  "dispatchUpdate cfg now s =
     (let s1 = (if sf_sink cfg
                then s\<lparr>trace := trace s @ [UpdateLastMessage (currentMessage s),
                                             OnMessageUpdate (currentMessage s)],
                       lastUpdateTime := now,
                       didDispatchAnyUpdate := True\<rparr>
                else s)
      in s1\<lparr>updateTimeout := None\<rparr>)"

text \<open>
  Lines 407 to 415, the OpenAI record. Each extractor returns the accumulator and
  \<^verbatim>\<open>hasUpdate\<close>; reading a property of \<^verbatim>\<open>null\<close> throws a TypeError.
\<close>

definition extract_openai ::
  "stream_config \<Rightarrow> json \<Rightarrow> accumulated_message \<Rightarrow> (accumulated_message \<times> bool) completion" where
  "extract_openai cfg parsed m =
     (if parsed = JNull then Throw type_error (m, False)
      else
        (let delta = opt_prop (opt_index0 (get_prop parsed ''choices'')) ''delta'';
             c = opt_prop delta ''content'';
             (m1, h1) = (if truthy c
                         then (m\<lparr>acc_content := acc_content m @ to_String (sf_env cfg) (the c)\<rparr>, True)
                         else (m, False));
             r = opt_prop delta ''reasoning_content''
         in if truthy r
            then Normal (m1\<lparr>acc_reasoning_content :=
                               acc_reasoning_content m1 @ to_String (sf_env cfg) (the r)\<rparr>, True)
            else Normal (m1, h1)))"

text \<open>Lines 390 to 395: the loop over the parts; a part that is \<^verbatim>\<open>null\<close> throws.\<close>

fun gemini_parts_loop ::
  "stream_config \<Rightarrow> json list \<Rightarrow> accumulated_message \<times> bool
     \<Rightarrow> (accumulated_message \<times> bool) completion" where
  "gemini_parts_loop cfg [] mh = Normal mh"
| "gemini_parts_loop cfg (part # parts) mh =
     (if part = JNull then Throw type_error mh
      else if truthy (get_prop part ''text'')
      then gemini_parts_loop cfg parts
             ((fst mh)\<lparr>acc_content := acc_content (fst mh) @ to_String (sf_env cfg) (the (get_prop part ''text''))\<rparr>,
              True)
      else gemini_parts_loop cfg parts mh)"

text \<open>
  Lines 388 to 396. \<^verbatim>\<open>for ... of\<close> runs over an array, and over the characters of a
  string, none of which has a \<^verbatim>\<open>text\<close>; any other truthy value is not iterable.
\<close>

definition extract_gemini ::
  "stream_config \<Rightarrow> json \<Rightarrow> accumulated_message \<Rightarrow> (accumulated_message \<times> bool) completion" where
  "extract_gemini cfg parsed m =
     (if parsed = JNull then Throw type_error (m, False)
      else
        (let candidates = get_prop parsed ''candidates'';
             parts = opt_prop (opt_prop (opt_index0 candidates) ''content'') ''parts''
         in if truthy candidates \<and> truthy parts
            then (case the parts of
                    JArr xs \<Rightarrow> gemini_parts_loop cfg xs (m, False)
                  | JStr s \<Rightarrow> Normal (m, False)
                  | _ \<Rightarrow> Throw type_error (m, False))
            else Normal (m, False)))"


text \<open>Lines 399 to 404.\<close>

definition extract_claude ::
  "stream_config \<Rightarrow> json \<Rightarrow> accumulated_message \<Rightarrow> (accumulated_message \<times> bool) completion" where
  "extract_claude cfg parsed m =
     (if parsed = JNull then Throw type_error (m, False)
      else if get_prop parsed ''type'' = Some (JStr ''content_block_delta'') \<and>
              truthy (opt_prop (get_prop parsed ''delta'') ''text'')
      then Normal (m\<lparr>acc_content := acc_content m
                       @ to_String (sf_env cfg) (the (opt_prop (get_prop parsed ''delta'') ''text''))\<rparr>, True)
      else Normal (m, False))"

definition extract_delta ::
  "stream_config \<Rightarrow> json \<Rightarrow> accumulated_message \<Rightarrow> (accumulated_message \<times> bool) completion" where
  "extract_delta cfg parsed m =
     (if sf_format cfg = ''gemini'' then extract_gemini cfg parsed m
      else if sf_format cfg = ''claude'' then extract_claude cfg parsed m
      else extract_openai cfg parsed m)"

text \<open>Lines 433 to 441: flush now, or set the timer for the rest of the interval.\<close>

definition schedule :: "stream_config \<Rightarrow> int \<Rightarrow> stream_state \<Rightarrow> stream_state" where
  "schedule cfg now s =
     (if updateTimeout s = None
      then (if now - lastUpdateTime s > UPDATE_INTERVAL
            then dispatchUpdate cfg now s
            else s\<lparr>updateTimeout := Some (now + (UPDATE_INTERVAL - (now - lastUpdateTime s)))\<rparr>)
      else s)"

text \<open>
  Lines 418 to 442, the body of \<^verbatim>\<open>if (hasUpdate)\<close>. The \<^verbatim>\<open>continue\<close> of line 429 leaves the
  state as it is.
\<close>

definition surface :: "stream_config \<Rightarrow> int \<Rightarrow> stream_state \<Rightarrow> stream_state completion" where
  "surface cfg now s =
     (if sf_detect cfg \<and> \<not> didDispatchAnyUpdate s \<and>
         acc_reasoning_content (currentMessage s) = []
      then
        (let contentStart = toLowerCase (trimStart (acc_content (currentMessage s))) in
         if \<exists>p \<in> set (sf_prefixes cfg). startsWith contentStart p
         then Throw misfiled_error s
         else if \<exists>p \<in> set (sf_prefixes cfg). startsWith p contentStart
         then Normal s
         else Normal (schedule cfg now s))
      else Normal (schedule cfg now s))"

text \<open>Lines 382 to 442, the \<^verbatim>\<open>try\<close> block on the payload of a data line.\<close>

definition try_block ::
  "stream_config \<Rightarrow> int \<Rightarrow> string \<Rightarrow> stream_state \<Rightarrow> stream_state completion" where
  "try_block cfg now data s =
     (case JSON_parse (sf_env cfg) data of
        None \<Rightarrow> Throw syntax_error s
      | Some parsed \<Rightarrow>
          (case extract_delta cfg parsed (currentMessage s) of
             Throw e (m, h) \<Rightarrow> Throw e (s\<lparr>currentMessage := m\<rparr>)
           | Normal (m, hasUpdate) \<Rightarrow>
               if hasUpdate then surface cfg now (s\<lparr>currentMessage := m\<rparr>)
               else Normal (s\<lparr>currentMessage := m\<rparr>)))"

text \<open>Lines 375 to 449: one line of the buffer, with the \<^verbatim>\<open>catch\<close> of lines 443 to 448.\<close>

definition handle_line ::
  "stream_config \<Rightarrow> int \<Rightarrow> string \<Rightarrow> stream_state \<Rightarrow> stream_state completion" where
  "handle_line cfg now line s =
     (if startsWith line ''data: ''
      then (let data = drop 6 line in
            if data = ''[DONE]'' then Normal s
            else (case try_block cfg now data s of
                    Normal s' \<Rightarrow> Normal s'
                  | Throw e s' \<Rightarrow>
                      if err_code e = Some ''CEREBR_MISFILED_THINK_SILENTLY''
                      then Throw e s'
                      else Normal (s'\<lparr>trace := trace s' @ [ConsoleError e]\<rparr>)))
      else Normal s)"

text \<open>\<^verbatim>\<open>buffer.indexOf('\n')\<close> when the buffer has a line feed.\<close>

definition newlineIndex :: "string \<Rightarrow> nat" where
  "newlineIndex buf = length (takeWhile (\<lambda>c. c \<noteq> CHR 0x0A) buf)"

text \<open>Lines 371 to 450: the inner loop, which takes the complete lines off the buffer.\<close>

function drain ::
  "stream_config \<Rightarrow> int \<Rightarrow> string \<Rightarrow> stream_state \<Rightarrow> stream_state completion" where
  "drain cfg now buf s =
     (if CHR 0x0A \<in> set buf
      then (case handle_line cfg now (take (newlineIndex buf) buf) s of
              Throw e s' \<Rightarrow> Throw e (s'\<lparr>buffer := drop (newlineIndex buf + 1) buf\<rparr>)
            | Normal s' \<Rightarrow> drain cfg now (drop (newlineIndex buf + 1) buf) s')
      else Normal (s\<lparr>buffer := buf\<rparr>))"
  by pat_completeness auto
termination
  by (relation "measure (\<lambda>(cfg, now, buf, s). length buf)") (auto dest!: split_list)

declare drain.simps [simp del]

text \<open>
  What \<^verbatim>\<open>await reader.read()\<close> lets happen: a chunk arrives (its decoded text, and the
  clock while its lines are processed), the stream ends (and the clock of line 360), the read
  rejects (an abort is the rejection named \<^verbatim>\<open>AbortError\<close>), or the pending timer fires
  while the loop waits.
\<close>

datatype event =
    Chunk int string
  | Done int
  | ReadRejects js_error
  | TimerFires int

text \<open>
  How the loop of lines 356 to 451 ends: it breaks, it throws, or it is still waiting when
  the events run out.
\<close>

datatype loop_result =
    Returned stream_state
  | Threw js_error stream_state
  | Awaiting stream_state

fun read_loop :: "stream_config \<Rightarrow> event list \<Rightarrow> stream_state \<Rightarrow> loop_result" where
  "read_loop cfg [] s = Awaiting s"
| "read_loop cfg (Done now # evs) s =
     Returned (if now - lastUpdateTime s > 0 then dispatchUpdate cfg now s else s)"
| "read_loop cfg (ReadRejects e # evs) s = Threw e s"
| "read_loop cfg (TimerFires now # evs) s =
     read_loop cfg evs
       (case updateTimeout s of
          Some due \<Rightarrow> if due \<le> now then dispatchUpdate cfg now s else s
        | None \<Rightarrow> s)"
| "read_loop cfg (Chunk now text # evs) s =
     (case drain cfg now (buffer s @ text) s of
        Throw e s' \<Rightarrow> Threw e s'
      | Normal s' \<Rightarrow> read_loop cfg evs s')"


text \<open>What \<^verbatim>\<open>fetch\<close> and the opening of the body give (lines 308 to 319).\<close>

datatype fetch_outcome =
    Fetch_rejects js_error
  | Response_not_ok string
  | No_reader
  | Got_reader

text \<open>How the promise of \<^verbatim>\<open>processStream\<close> settles; \<open>Resolved None\<close> is \<^verbatim>\<open>undefined\<close>.\<close>

datatype settlement =
    Resolved "accumulated_message option"
  | Rejected js_error
  | Pending

text \<open>Lines 454 to 458.\<close>

definition catch_handler :: "js_error \<Rightarrow> settlement" where
  "catch_handler error = (if err_name error = ''AbortError'' then Resolved None else Rejected error)"

definition initial_state :: stream_state where
  "initial_state =
     \<lparr>buffer = [], currentMessage = \<lparr>acc_content = [], acc_reasoning_content = []\<rparr>,
      lastUpdateTime = 0, updateTimeout = None, didDispatchAnyUpdate = False,
      trace = [Fetch]\<rparr>"

text \<open>
  Lines 305 to 466. \<open>unreadable\<close> is the text of \<^verbatim>\<open>t('error_response_unreadable')\<close>. The
  \<^verbatim>\<open>finally\<close> cancels the reader when there is one.
\<close>

definition processStream ::
  "stream_config \<Rightarrow> string \<Rightarrow> fetch_outcome \<Rightarrow> event list \<Rightarrow> settlement \<times> effect list" where
  "processStream cfg unreadable fetched events =
     (case fetched of
        Fetch_rejects e \<Rightarrow> (catch_handler e, [Fetch])
      | Response_not_ok msg \<Rightarrow> (catch_handler (plain_error msg), [Fetch])
      | No_reader \<Rightarrow> (catch_handler (plain_error unreadable), [Fetch])
      | Got_reader \<Rightarrow>
          (case read_loop cfg events initial_state of
             Returned s \<Rightarrow> (Resolved (Some (currentMessage s)), trace s @ [ReaderCancel])
           | Threw e s \<Rightarrow> (catch_handler e, trace s @ [ReaderCancel])
           | Awaiting s \<Rightarrow> (Pending, trace s)))"

section \<open>\<^verbatim>\<open>callAPI\<close>\<close>









section \<open>Fixtures for the examples\<close>

text \<open>
  Stands for \<^verbatim>\<open>JSON.stringify\<close> in examples whose system messages all have string contents,
  where it is never called.
\<close>

definition unused_stringify :: "content_item list \<Rightarrow> string" where
  "unused_stringify items = []"

text \<open>The record \<^verbatim>\<open>{"choices":[{"delta":{"content": c}}]}\<close> and its text on the wire.\<close>

definition openai_delta :: "string \<Rightarrow> json" where
  "openai_delta c =
     JObj [(''choices'', JArr [JObj [(''delta'', JObj [(''content'', JStr c)])]])]"

definition openai_payload :: "string \<Rightarrow> string" where
  "openai_payload c = ''{\"choices\":[{\"delta\":{\"content\":\"'' @ c @ ''\"}}]}''"

text \<open>
  \<^verbatim>\<open>JSON.parse\<close> on the payloads of the examples: the text \<^verbatim>\<open>null\<close>, and an OpenAI record
  with one content string that needs no escape. It fails on anything else.
\<close>

definition sample_parse :: "string \<Rightarrow> json option" where
  "sample_parse data =
     (if data = ''null'' then Some JNull
      else if startsWith data ''{\"choices\":[{\"delta\":{\"content\":\"'' \<and>
              38 \<le> length data \<and> drop (length data - 5) data = ''\"}}]}''
      then Some (openai_delta (take (length data - 38) (drop 33 data)))
      else None)"

text \<open>The conversion to a string, right on strings, which is all the examples convert.\<close>

definition sample_to_String :: "json \<Rightarrow> string" where
  "sample_to_String v = (case v of JStr s \<Rightarrow> s | _ \<Rightarrow> [])"

definition sample_env :: environment where
  "sample_env =
     \<lparr>normalizeChatCompletionsUrl = (\<lambda>u. u), i18n_t = (\<lambda>k. k),
      JSON_stringify = unused_stringify, URL_valid = (\<lambda>u. True),
      JSON_parse = sample_parse, to_String = sample_to_String\<rparr>"


definition sample_params :: api_params where
  "sample_params =
     \<lparr>param_messages = [\<lparr>role = ''user'', content = Str ''hi'',
                          reasoning_content = None, updating = None\<rparr>],
      apiConfig = \<lparr>baseUrl = ''https://api.example.com/v1/chat/completions'', apiKey = ''k'',
                   modelName = None, apiFormat = None,
                   systemPrompt = Some ''Reply in {{userLanguage}}.''\<rparr>,
      userLanguage = ''en-US'', webpageInfo = None\<rparr>"

text \<open>The configuration \<^verbatim>\<open>callAPI\<close> builds from these.\<close>

definition sample_config :: stream_config where
  "sample_config =
     \<lparr>sf_format = ''openai'', sf_sink = True, sf_detect = True,
      sf_prefixes = [''think''], sf_env = sample_env\<rparr>"







section \<open>Facts about the string functions\<close>

lemma startsWith_iff: "startsWith s p \<longleftrightarrow> (\<exists>b. s = p @ b)"
  unfolding startsWith_def
  by (metis append_eq_conv_conj append_take_drop_id)

lemma includes_str_iff: "includes_str s n \<longleftrightarrow> (\<exists>a b. s = a @ n @ b)"
proof (induction s)
  case Nil
  then show ?case by auto
next
  case (Cons c cs)
  show ?case
  proof
    assume "includes_str (c # cs) n"
    then consider "startsWith (c # cs) n" | "includes_str cs n" by auto
    then show "\<exists>a b. c # cs = a @ n @ b"
    proof cases
      case 1
      then obtain b where "c # cs = n @ b" using startsWith_iff by blast
      then have "c # cs = [] @ n @ b" by simp
      then show ?thesis by blast
    next
      case 2
      then obtain a b where "cs = a @ n @ b" using Cons.IH by blast
      then have "c # cs = (c # a) @ n @ b" by simp
      then show ?thesis by blast
    qed
  next
    assume "\<exists>a b. c # cs = a @ n @ b"
    then obtain a b where ab: "c # cs = a @ n @ b" by blast
    show "includes_str (c # cs) n"
    proof (cases a)
      case Nil
      then have "startsWith (c # cs) n" using ab startsWith_iff by auto
      then show ?thesis by simp
    next
      case (Cons x a')
      then have "cs = a' @ n @ b" using ab by simp
      then have "includes_str cs n" using Cons.IH by blast
      then show ?thesis by simp
    qed
  qed
qed

section \<open>Profile resolution\<close>

text \<open>
  C4. \<^verbatim>\<open>detectApiFormat\<close> returns an explicit format that is one of \<^verbatim>\<open>openai\<close>,
  \<^verbatim>\<open>gemini\<close>, \<^verbatim>\<open>claude\<close> as it is. With any other explicit format, or none, the result is
  \<^verbatim>\<open>gemini\<close> when the lower-cased URL contains \<^verbatim>\<open>generativelanguage.googleapis.com\<close>,
  \<^verbatim>\<open>aiplatform.googleapis.com\<close> or \<^verbatim>\<open>gemini\<close>; else \<^verbatim>\<open>claude\<close> when it contains
  \<^verbatim>\<open>anthropic.com\<close>, \<^verbatim>\<open>claude\<close> or \<^verbatim>\<open>api.anthropic\<close>; else \<^verbatim>\<open>openai\<close>. The result is
  always one of the three.
\<close>

theorem detectApiFormat_resolution:
  "(\<forall>f. explicitFormat = Some f \<and> f \<in> {''openai'', ''gemini'', ''claude''}
        \<longrightarrow> detectApiFormat u explicitFormat = f) \<and>
   ((\<forall>f. explicitFormat = Some f \<longrightarrow> f \<notin> {''openai'', ''gemini'', ''claude''}) \<longrightarrow>
      detectApiFormat u explicitFormat =
        (if (\<exists>a b. toLowerCase u = a @ ''generativelanguage.googleapis.com'' @ b) \<or>
            (\<exists>a b. toLowerCase u = a @ ''aiplatform.googleapis.com'' @ b) \<or>
            (\<exists>a b. toLowerCase u = a @ ''gemini'' @ b) then ''gemini''
         else if (\<exists>a b. toLowerCase u = a @ ''anthropic.com'' @ b) \<or>
            (\<exists>a b. toLowerCase u = a @ ''claude'' @ b) \<or>
            (\<exists>a b. toLowerCase u = a @ ''api.anthropic'' @ b) then ''claude''
         else ''openai'')) \<and>
   detectApiFormat u explicitFormat \<in> {''openai'', ''gemini'', ''claude''}"
proof (intro conjI allI impI)
  fix f assume "explicitFormat = Some f \<and> f \<in> {''openai'', ''gemini'', ''claude''}"
  then show "detectApiFormat u explicitFormat = f"
    by (auto simp: detectApiFormat_def)
next
  assume "\<forall>f. explicitFormat = Some f \<longrightarrow> f \<notin> {''openai'', ''gemini'', ''claude''}"
  then have "\<not> (case explicitFormat of None \<Rightarrow> False
          | Some f \<Rightarrow> f \<noteq> [] \<and> f \<in> set [''openai'', ''gemini'', ''claude''])"
    by (cases explicitFormat) auto
  then show "detectApiFormat u explicitFormat =
        (if (\<exists>a b. toLowerCase u = a @ ''generativelanguage.googleapis.com'' @ b) \<or>
            (\<exists>a b. toLowerCase u = a @ ''aiplatform.googleapis.com'' @ b) \<or>
            (\<exists>a b. toLowerCase u = a @ ''gemini'' @ b) then ''gemini''
         else if (\<exists>a b. toLowerCase u = a @ ''anthropic.com'' @ b) \<or>
            (\<exists>a b. toLowerCase u = a @ ''claude'' @ b) \<or>
            (\<exists>a b. toLowerCase u = a @ ''api.anthropic'' @ b) then ''claude''
         else ''openai'')"
    unfolding detectApiFormat_def Let_def includes_str_iff by simp
next
  show "detectApiFormat u explicitFormat \<in> {''openai'', ''gemini'', ''claude''}"
    by (cases explicitFormat) (auto simp: detectApiFormat_def Let_def)
qed

theorem detectApiFormat_resolution_witness:
  "detectApiFormat ''https://API.Anthropic.com/v1'' (Some ''gemini'') = ''gemini'' \<and>
   detectApiFormat ''https://API.Anthropic.com/v1'' None = ''claude''"
proof -
  have 1: "detectApiFormat ''https://API.Anthropic.com/v1'' (Some ''gemini'') = ''gemini''"
    using detectApiFormat_resolution [of "Some ''gemini''" "''https://API.Anthropic.com/v1''"]
    by simp
  have 2: "detectApiFormat ''https://API.Anthropic.com/v1'' None =
     (let url = toLowerCase ''https://API.Anthropic.com/v1'' in
      if includes_str url ''generativelanguage.googleapis.com'' \<or>
         includes_str url ''aiplatform.googleapis.com'' \<or>
         includes_str url ''gemini'' then ''gemini''
      else if includes_str url ''anthropic.com'' \<or>
         includes_str url ''claude'' \<or>
         includes_str url ''api.anthropic'' then ''claude''
      else ''openai'')"
    using detectApiFormat_resolution [of None "''https://API.Anthropic.com/v1''"]
    unfolding includes_str_iff Let_def by simp
  have 3: "(let url = toLowerCase ''https://API.Anthropic.com/v1'' in
      if includes_str url ''generativelanguage.googleapis.com'' \<or>
         includes_str url ''aiplatform.googleapis.com'' \<or>
         includes_str url ''gemini'' then ''gemini''
      else if includes_str url ''anthropic.com'' \<or>
         includes_str url ''claude'' \<or>
         includes_str url ''api.anthropic'' then ''claude''
      else ''openai'') = ''claude''"
    by code_simp
  show ?thesis using 1 2 3 by simp
qed

section \<open>The Gemini translator\<close>

lemma gemini_loop_contents:
  "contents (gemini_loop st msgs acc) =
     contents acc @
     map (\<lambda>m. \<lparr>g_role = (if role m = ''assistant'' then ''model'' else ''user''),
                g_parts = gemini_parts (content m)\<rparr>)
         (filter (\<lambda>m. role m \<noteq> ''system'' \<and> gemini_parts (content m) \<noteq> []) msgs)"
  by (induction msgs arbitrary: acc) (simp_all add: Let_def)

lemma gemini_loop_systemInstruction:
  "systemInstruction (gemini_loop st msgs acc) =
     (if filter (\<lambda>m. role m = ''system'') msgs = [] then systemInstruction acc
      else Some [Text_part (Some (system_text st (last (filter (\<lambda>m. role m = ''system'') msgs))))])"
  by (induction msgs arbitrary: acc) (simp_all add: Let_def)

text \<open>
  C5. The turns of \<^verbatim>\<open>convertToGeminiFormat\<close> are the messages whose role is not
  \<^verbatim>\<open>system\<close>, in their order, with the role \<^verbatim>\<open>model\<close> for \<^verbatim>\<open>assistant\<close> and \<^verbatim>\<open>user\<close> for
  any other, and the parts of the content; a message with no parts is left out. A string
  content is the single text part of that string. \<^verbatim>\<open>systemInstruction\<close> is absent exactly
  when no message is a system message, and otherwise holds the text of a system message.
\<close>

theorem convertToGeminiFormat_turns:
  "contents (convertToGeminiFormat st msgs) =
     map (\<lambda>m. \<lparr>g_role = (if role m = ''assistant'' then ''model'' else ''user''),
                g_parts = gemini_parts (content m)\<rparr>)
         (filter (\<lambda>m. role m \<noteq> ''system'' \<and> gemini_parts (content m) \<noteq> []) msgs) \<and>
   (\<forall>m \<in> set msgs. \<forall>s. content m = Str s \<longrightarrow> gemini_parts (content m) = [Text_part (Some s)]) \<and>
   (systemInstruction (convertToGeminiFormat st msgs) = None
      \<longleftrightarrow> (\<forall>m \<in> set msgs. role m \<noteq> ''system'')) \<and>
   (\<forall>x. systemInstruction (convertToGeminiFormat st msgs) = Some x \<longrightarrow>
        (\<exists>m \<in> set msgs. role m = ''system'' \<and> x = [Text_part (Some (system_text st m))]))"
proof (intro conjI)
  show "contents (convertToGeminiFormat st msgs) =
     map (\<lambda>m. \<lparr>g_role = (if role m = ''assistant'' then ''model'' else ''user''),
                g_parts = gemini_parts (content m)\<rparr>)
         (filter (\<lambda>m. role m \<noteq> ''system'' \<and> gemini_parts (content m) \<noteq> []) msgs)"
    by (simp add: convertToGeminiFormat_def gemini_loop_contents)
  show "\<forall>m \<in> set msgs. \<forall>s. content m = Str s \<longrightarrow> gemini_parts (content m) = [Text_part (Some s)]"
    by simp
  let ?ss = "filter (\<lambda>m. role m = ''system'') msgs"
  have si: "systemInstruction (convertToGeminiFormat st msgs) =
     (if ?ss = [] then None else Some [Text_part (Some (system_text st (last ?ss)))])"
    by (simp add: convertToGeminiFormat_def gemini_loop_systemInstruction)
  show "systemInstruction (convertToGeminiFormat st msgs) = None
      \<longleftrightarrow> (\<forall>m \<in> set msgs. role m \<noteq> ''system'')"
    unfolding si by (auto simp: filter_empty_conv)
  show "\<forall>x. systemInstruction (convertToGeminiFormat st msgs) = Some x \<longrightarrow>
        (\<exists>m \<in> set msgs. role m = ''system'' \<and> x = [Text_part (Some (system_text st m))])"
  proof (intro allI impI)
    fix x assume a: "systemInstruction (convertToGeminiFormat st msgs) = Some x"
    then have ss: "?ss \<noteq> []" unfolding si by (auto split: if_splits)
    then have x: "x = [Text_part (Some (system_text st (last ?ss)))]" using a unfolding si by simp
    have "last ?ss \<in> set ?ss" using ss by (rule last_in_set)
    then have "last ?ss \<in> set msgs \<and> role (last ?ss) = ''system''" by auto
    then show "\<exists>m \<in> set msgs. role m = ''system'' \<and> x = [Text_part (Some (system_text st m))]"
      using x by blast
  qed
qed

theorem convertToGeminiFormat_turns_witness:
  "contents (convertToGeminiFormat unused_stringify
      [\<lparr>role = ''system'', content = Str ''Be terse''\<rparr>,
       \<lparr>role = ''user'', content = Str ''hi''\<rparr>,
       \<lparr>role = ''assistant'', content = Str ''yo''\<rparr>,
       \<lparr>role = ''tool'', content = Arr []\<rparr>]) =
     [\<lparr>g_role = ''user'', g_parts = [Text_part (Some ''hi'')]\<rparr>,
      \<lparr>g_role = ''model'', g_parts = [Text_part (Some ''yo'')]\<rparr>] \<and>
   systemInstruction (convertToGeminiFormat unused_stringify
      [\<lparr>role = ''system'', content = Str ''Be terse''\<rparr>,
       \<lparr>role = ''user'', content = Str ''hi''\<rparr>,
       \<lparr>role = ''assistant'', content = Str ''yo''\<rparr>,
       \<lparr>role = ''tool'', content = Arr []\<rparr>]) = Some [Text_part (Some ''Be terse'')]"
  using convertToGeminiFormat_turns [of unused_stringify
      "[\<lparr>role = ''system'', content = Str ''Be terse''\<rparr>,
        \<lparr>role = ''user'', content = Str ''hi''\<rparr>,
        \<lparr>role = ''assistant'', content = Str ''yo''\<rparr>,
        \<lparr>role = ''tool'', content = Arr []\<rparr>]"]
  by (auto simp: system_text_def)

text \<open>
  C10. With at least one system message, \<^verbatim>\<open>systemInstruction\<close> holds the text of the last
  system message alone; the turns are those of the list without its system messages; a
  system message put at the end of a list replaces \<^verbatim>\<open>systemInstruction\<close> and changes nothing
  else.
\<close>

theorem convertToGeminiFormat_last_system:
  "filter (\<lambda>m. role m = ''system'') msgs \<noteq> [] \<Longrightarrow>
   systemInstruction (convertToGeminiFormat st msgs) =
     Some [Text_part (Some (system_text st (last (filter (\<lambda>m. role m = ''system'') msgs))))] \<and>
   contents (convertToGeminiFormat st msgs) =
     contents (convertToGeminiFormat st (filter (\<lambda>m. role m \<noteq> ''system'') msgs)) \<and>
   (role m = ''system'' \<longrightarrow>
      convertToGeminiFormat st (msgs @ [m]) =
        (convertToGeminiFormat st msgs)
          \<lparr>systemInstruction := Some [Text_part (Some (system_text st m))]\<rparr>)"
proof (intro conjI impI)
  assume ne: "filter (\<lambda>m. role m = ''system'') msgs \<noteq> []"
  then show "systemInstruction (convertToGeminiFormat st msgs) =
     Some [Text_part (Some (system_text st (last (filter (\<lambda>m. role m = ''system'') msgs))))]"
    by (simp add: convertToGeminiFormat_def gemini_loop_systemInstruction)
  have "filter (\<lambda>m. role m \<noteq> ''system'' \<and> gemini_parts (content m) \<noteq> [])
          (filter (\<lambda>m. role m \<noteq> ''system'') msgs) =
        filter (\<lambda>m. role m \<noteq> ''system'' \<and> gemini_parts (content m) \<noteq> []) msgs"
    by (induction msgs) auto
  then show "contents (convertToGeminiFormat st msgs) =
     contents (convertToGeminiFormat st (filter (\<lambda>m. role m \<noteq> ''system'') msgs))"
    by (simp add: convertToGeminiFormat_def gemini_loop_contents)
next
  assume sys: "role m = ''system''"
  have c: "contents (convertToGeminiFormat st (msgs @ [m])) = contents (convertToGeminiFormat st msgs)"
    using sys by (simp add: convertToGeminiFormat_def gemini_loop_contents)
  have s: "systemInstruction (convertToGeminiFormat st (msgs @ [m])) =
      Some [Text_part (Some (system_text st m))]"
    using sys by (simp add: convertToGeminiFormat_def gemini_loop_systemInstruction)
  show "convertToGeminiFormat st (msgs @ [m]) =
        (convertToGeminiFormat st msgs)
          \<lparr>systemInstruction := Some [Text_part (Some (system_text st m))]\<rparr>"
    using c s by (intro gemini_body.equality) simp_all
qed

theorem convertToGeminiFormat_last_system_witness:
  "systemInstruction (convertToGeminiFormat unused_stringify
      [\<lparr>role = ''system'', content = Str ''first''\<rparr>,
       \<lparr>role = ''user'', content = Str ''hi''\<rparr>,
       \<lparr>role = ''system'', content = Str ''second''\<rparr>]) = Some [Text_part (Some ''second'')] \<and>
   contents (convertToGeminiFormat unused_stringify
      [\<lparr>role = ''system'', content = Str ''first''\<rparr>,
       \<lparr>role = ''user'', content = Str ''hi''\<rparr>,
       \<lparr>role = ''system'', content = Str ''second''\<rparr>]) =
     [\<lparr>g_role = ''user'', g_parts = [Text_part (Some ''hi'')]\<rparr>]"
  using convertToGeminiFormat_last_system [of
      "[\<lparr>role = ''system'', content = Str ''first''\<rparr>,
        \<lparr>role = ''user'', content = Str ''hi''\<rparr>,
        \<lparr>role = ''system'', content = Str ''second''\<rparr>]" unused_stringify
      "\<lparr>role = ''user'', content = Str ''x''\<rparr>"]
  by (simp add: system_text_def convertToGeminiFormat_def)

section \<open>The Claude translator\<close>

lemma join_Cons: "join sep (x # xs) = x @ concat (map (\<lambda>y. sep @ y) xs)"
  by (induction xs arbitrary: x) simp_all

lemma claude_loop_messages:
  "messages (claude_loop st msgs acc) =
     messages acc @
     map (\<lambda>m. \<lparr>c_role = role m, c_content = claude_parts (content m)\<rparr>)
         (filter (\<lambda>m. role m \<noteq> ''system'' \<and> claude_parts (content m) \<noteq> []) msgs)"
  by (induction msgs arbitrary: acc) (simp_all add: Let_def)

lemma claude_loop_system_nonempty:
  "system acc \<noteq> [] \<Longrightarrow>
   system (claude_loop st msgs acc) =
     system acc @ concat (map (\<lambda>y. ''\<newline>\<newline>'' @ y)
                     (map (system_text st) (filter (\<lambda>m. role m = ''system'') msgs)))"
  by (induction msgs arbitrary: acc) (simp_all add: Let_def)

lemma claude_loop_system_empty:
  "system acc = [] \<Longrightarrow>
   system (claude_loop st msgs acc) =
     join ''\<newline>\<newline>'' (dropWhile (\<lambda>c. c = [])
        (map (system_text st) (filter (\<lambda>m. role m = ''system'') msgs)))"
proof (induction msgs arbitrary: acc)
  case Nil
  then show ?case by simp
next
  case (Cons m msgs)
  show ?case
  proof (cases "role m = ''system''")
    case sys: True
    show ?thesis
    proof (cases "system_text st m = []")
      case True
      then show ?thesis using sys Cons by simp
    next
      case False
      then show ?thesis using sys Cons.prems
        by (simp add: claude_loop_system_nonempty join_Cons)
    qed
  next
    case False
    then show ?thesis using Cons by (simp add: Let_def)
  qed
qed

text \<open>
  C6, as stated: \<^verbatim>\<open>system\<close> is the texts of all system messages joined by blank lines.
  It is not, when the first system message is empty: \<^verbatim>\<open>(system ? '\n\n' : '')\<close> puts no
  separator after an empty accumulator.
\<close>

theorem convertToClaudeFormat_counterexample:
  "system (convertToClaudeFormat unused_stringify
     [\<lparr>role = ''system'', content = Str ''''\<rparr>, \<lparr>role = ''system'', content = Str ''a''\<rparr>])
   \<noteq> join ''\<newline>\<newline>'' ['''', ''a'']"
  by (simp add: convertToClaudeFormat_def system_text_def)

text \<open>
  C6, amended. \<^verbatim>\<open>system\<close> is the texts of the system messages, in order, from the first
  non-empty one on, joined by blank lines. The turns are the other messages in their order,
  each with its own role and the blocks of its content, those without blocks left out. A
  system message \<^verbatim>\<open>Be terse\<close> and one message of another role with a string content give
  that \<^verbatim>\<open>system\<close> and the one turn with one text block.
\<close>

theorem convertToClaudeFormat_system_and_turns:
  "system (convertToClaudeFormat st msgs) =
     join ''\<newline>\<newline>'' (dropWhile (\<lambda>c. c = [])
        (map (system_text st) (filter (\<lambda>m. role m = ''system'') msgs))) \<and>
   messages (convertToClaudeFormat st msgs) =
     map (\<lambda>m. \<lparr>c_role = role m, c_content = claude_parts (content m)\<rparr>)
         (filter (\<lambda>m. role m \<noteq> ''system'' \<and> claude_parts (content m) \<noteq> []) msgs) \<and>
   (r \<noteq> ''system'' \<longrightarrow>
    convertToClaudeFormat st
       [\<lparr>role = ''system'', content = Str ''Be terse''\<rparr>, \<lparr>role = r, content = Str u\<rparr>] =
     \<lparr>messages = [\<lparr>c_role = r, c_content = [Text_block (Some u)]\<rparr>], system = ''Be terse''\<rparr>)"
  by (simp add: convertToClaudeFormat_def claude_loop_messages claude_loop_system_empty
        system_text_def)

theorem convertToClaudeFormat_system_and_turns_witness:
  "convertToClaudeFormat unused_stringify
       [\<lparr>role = ''system'', content = Str ''Be terse''\<rparr>, \<lparr>role = ''user'', content = Str ''hi''\<rparr>] =
     \<lparr>messages = [\<lparr>c_role = ''user'', c_content = [Text_block (Some ''hi'')]\<rparr>], system = ''Be terse''\<rparr>"
  using convertToClaudeFormat_system_and_turns [of unused_stringify "[]" "''user''" "''hi''"]
  by simp

section \<open>Images in both translators\<close>

lemma split_on_not_Nil: "split_on sep s \<noteq> []"
  by (induction s) (auto split: list.splits)

lemma hd_split_on: "hd (split_on sep s) = takeWhile (\<lambda>c. c \<noteq> sep) s"
  by (induction s) (auto split: list.splits simp: split_on_not_Nil)

lemma tl_split_on:
  "tl (split_on sep s) =
     (if sep \<in> set s then split_on sep (tl (dropWhile (\<lambda>c. c \<noteq> sep) s)) else [])"
  by (induction s) (auto split: list.splits simp: split_on_not_Nil)

lemma split_header_eq: "split_header u = takeWhile (\<lambda>c. c \<noteq> CHR '','') u"
  by (simp add: split_header_def hd_split_on)

lemma split_base64_eq:
  "split_base64 u =
     (if CHR '','' \<in> set u
      then Some (takeWhile (\<lambda>c. c \<noteq> CHR '','') (tl (dropWhile (\<lambda>c. c \<noteq> CHR '','') u)))
      else None)"
proof -
  obtain w ws where w: "split_on CHR '','' u = w # ws"
    using split_on_not_Nil by (cases "split_on CHR '','' u") auto
  then have ws: "ws = tl (split_on CHR '','' u)" by simp
  show ?thesis
  proof (cases "CHR '','' \<in> set u")
    case True
    let ?r = "tl (dropWhile (\<lambda>c. c \<noteq> CHR '','') u)"
    have eq: "ws = split_on CHR '','' ?r"
      using ws True by (simp add: tl_split_on)
    have "ws \<noteq> []" unfolding eq by (rule split_on_not_Nil)
    then obtain b bs where b: "ws = b # bs"
      by (cases ws) simp_all
    then have "b = hd (split_on CHR '','' ?r)" using eq by simp
    then have "b = takeWhile (\<lambda>c. c \<noteq> CHR '','') ?r" by (simp add: hd_split_on)
    then show ?thesis using w b True by (simp add: split_base64_def)
  next
    case False
    then have "ws = []" using ws by (simp add: tl_split_on)
    then show ?thesis using w False by (simp add: split_base64_def)
  qed
qed

lemma match_data_mime_head:
  "m \<noteq> [] \<Longrightarrow> CHR '';'' \<notin> set m \<Longrightarrow> rest = [] \<or> hd rest = CHR '';'' \<Longrightarrow>
   match_data_mime (''data:'' @ m @ rest) = Some m"
proof -
  assume m: "m \<noteq> []" and ns: "CHR '';'' \<notin> set m" and r: "rest = [] \<or> hd rest = CHR '';''"
  have "takeWhile (\<lambda>d. d \<noteq> CHR '';'') (m @ rest) = m"
  proof (cases rest)
    case Nil
    then show ?thesis using ns by (auto simp: takeWhile_eq_all_conv)
  next
    case (Cons a list)
    then have "a = CHR '';''" using r by simp
    then show ?thesis using ns Cons by (auto simp: takeWhile_tail)
  qed
  then show ?thesis using m by (simp add: startsWith_def)
qed

text \<open>
  C7, as stated: the payload of a data URL is what follows its first comma. It is not, when
  the URL has a second comma: \<^verbatim>\<open>const [header, base64] = dataUrl.split(',')\<close> takes the
  piece between the first two commas.
\<close>

theorem image_item_counterexample:
  "gemini_item_parts
     \<lparr>item_type = ''image_url'', item_text = None,
      item_url = Some ''data:image/svg+xml,<svg><!--a,b--></svg>''\<rparr>
   \<noteq> [Inline_data ''image/svg+xml'' (Some ''<svg><!--a,b--></svg>'')]"
  by (simp add: gemini_item_parts_def startsWith_def split_base64_def)

text \<open>
  C7, amended. For an item of type \<^verbatim>\<open>image_url\<close> with a non-empty URL: when the URL starts
  with \<^verbatim>\<open>data:\<close>, both translators emit one inline image, whose mime type is the match of
  \<^verbatim>\<open>/data:([^;]+)/\<close> in the text before the first comma, or \<^verbatim>\<open>image/png\<close> without a match,
  and whose data is the text between the first comma and the second (or the end), absent
  when the URL has no comma; any other URL gives no part at all. The pattern finds the mime
  type that follows \<^verbatim>\<open>data:\<close> at the start and ends at a semicolon or at the end.
\<close>

theorem image_item_conversion:
  "item_type item = ''image_url'' \<Longrightarrow> item_url item = Some u \<Longrightarrow> u \<noteq> [] \<Longrightarrow>
   (startsWith u ''data:'' \<longrightarrow>
      gemini_item_parts item =
        [Inline_data
           (case match_data_mime (takeWhile (\<lambda>c. c \<noteq> CHR '','') u) of
              Some mime \<Rightarrow> mime | None \<Rightarrow> ''image/png'')
           (if CHR '','' \<in> set u
            then Some (takeWhile (\<lambda>c. c \<noteq> CHR '','') (tl (dropWhile (\<lambda>c. c \<noteq> CHR '','') u)))
            else None)] \<and>
      claude_item_parts item =
        [Image_block
           (case match_data_mime (takeWhile (\<lambda>c. c \<noteq> CHR '','') u) of
              Some mime \<Rightarrow> mime | None \<Rightarrow> ''image/png'')
           (if CHR '','' \<in> set u
            then Some (takeWhile (\<lambda>c. c \<noteq> CHR '','') (tl (dropWhile (\<lambda>c. c \<noteq> CHR '','') u)))
            else None)]) \<and>
   (\<not> startsWith u ''data:'' \<longrightarrow> gemini_item_parts item = [] \<and> claude_item_parts item = []) \<and>
   (\<forall>mime rest. mime \<noteq> [] \<and> CHR '';'' \<notin> set mime \<and> (rest = [] \<or> hd rest = CHR '';'')
        \<longrightarrow> match_data_mime (''data:'' @ mime @ rest) = Some mime)"
proof -
  assume a: "item_type item = ''image_url''" "item_url item = Some u" "u \<noteq> []"
  have 1: "startsWith u ''data:'' \<longrightarrow>
      gemini_item_parts item =
        [Inline_data
           (case match_data_mime (takeWhile (\<lambda>c. c \<noteq> CHR '','') u) of
              Some mime \<Rightarrow> mime | None \<Rightarrow> ''image/png'')
           (if CHR '','' \<in> set u
            then Some (takeWhile (\<lambda>c. c \<noteq> CHR '','') (tl (dropWhile (\<lambda>c. c \<noteq> CHR '','') u)))
            else None)] \<and>
      claude_item_parts item =
        [Image_block
           (case match_data_mime (takeWhile (\<lambda>c. c \<noteq> CHR '','') u) of
              Some mime \<Rightarrow> mime | None \<Rightarrow> ''image/png'')
           (if CHR '','' \<in> set u
            then Some (takeWhile (\<lambda>c. c \<noteq> CHR '','') (tl (dropWhile (\<lambda>c. c \<noteq> CHR '','') u)))
            else None)]"
    using a
    by (simp add: gemini_item_parts_def claude_item_parts_def mime_of_header_def
          split_header_eq split_base64_eq)
  have 2: "\<not> startsWith u ''data:'' \<longrightarrow> gemini_item_parts item = [] \<and> claude_item_parts item = []"
    using a by (simp add: gemini_item_parts_def claude_item_parts_def)
  have 3: "\<forall>mime rest. mime \<noteq> [] \<and> CHR '';'' \<notin> set mime \<and> (rest = [] \<or> hd rest = CHR '';'')
        \<longrightarrow> match_data_mime (''data:'' @ mime @ rest) = Some mime"
    using match_data_mime_head by blast
  show ?thesis using 1 2 3 by blast
qed

theorem image_item_conversion_witness:
  "gemini_item_parts
     \<lparr>item_type = ''image_url'', item_text = None,
      item_url = Some ''data:image/jpeg;base64,QUJD''\<rparr> =
     [Inline_data ''image/jpeg'' (Some ''QUJD'')] \<and>
   claude_item_parts
     \<lparr>item_type = ''image_url'', item_text = None,
      item_url = Some ''data:image/jpeg;base64,QUJD''\<rparr> =
     [Image_block ''image/jpeg'' (Some ''QUJD'')] \<and>
   gemini_item_parts
     \<lparr>item_type = ''image_url'', item_text = None,
      item_url = Some ''https://example.com/a.png''\<rparr> = [] \<and>
   claude_item_parts
     \<lparr>item_type = ''image_url'', item_text = None,
      item_url = Some ''https://example.com/a.png''\<rparr> = []"
  using image_item_conversion [of
      "\<lparr>item_type = ''image_url'', item_text = None,
        item_url = Some ''data:image/jpeg;base64,QUJD''\<rparr>" "''data:image/jpeg;base64,QUJD''"]
    image_item_conversion [of
      "\<lparr>item_type = ''image_url'', item_text = None,
        item_url = Some ''https://example.com/a.png''\<rparr>" "''https://example.com/a.png''"]
  by (simp add: startsWith_def)

section \<open>The system message\<close>

lemma expand_replacement_plain:
  "CHR ''$'' \<notin> set repl \<Longrightarrow> expand_replacement repl matched preceding after = repl"
  by (induction repl matched preceding after rule: expand_replacement.induct) auto

lemma startsWith_includes: "startsWith s n \<Longrightarrow> includes_str s n"
  by (cases s) (auto simp: startsWith_def)

lemma replace_from_Nil: "replace_from preceding [] repl = []"
  by (subst replace_from.simps) simp

lemma replace_from_absent:
  "\<not> includes_str rest placeholder \<Longrightarrow> replace_from preceding rest repl = rest"
proof (induction preceding rest repl rule: replace_from.induct)
  case (1 preceding rest repl)
  show ?case
  proof (cases rest)
    case Nil
    then show ?thesis by (simp add: replace_from_Nil)
  next
    case (Cons c cs)
    have ns: "\<not> startsWith rest placeholder"
      using "1.prems" startsWith_includes by blast
    have "\<not> includes_str cs placeholder" using "1.prems" Cons by simp
    then have "replace_from (preceding @ [hd rest]) (tl rest) repl = tl rest"
      using "1.IH"(2) ns Cons by simp
    then show ?thesis using ns Cons by (subst replace_from.simps) simp
  qed
qed

lemma replace_from_first:
  "CHR ''$'' \<notin> set repl \<Longrightarrow> \<not> includes_str (a @ butlast placeholder) placeholder \<Longrightarrow>
   replace_from preceding (a @ placeholder @ b) repl =
     a @ repl @ replace_from (preceding @ a @ placeholder) b repl"
proof (induction a arbitrary: preceding)
  case Nil
  have "startsWith (placeholder @ b) placeholder" by (simp add: startsWith_def)
  moreover have "placeholder \<noteq> []" by (simp add: placeholder_def)
  ultimately show ?case using Nil.prems(1)
    by (subst replace_from.simps) (simp add: expand_replacement_plain)
next
  case (Cons x a)
  have ns: "\<not> startsWith ((x # a) @ placeholder @ b) placeholder"
  proof
    assume sw: "startsWith ((x # a) @ placeholder @ b) placeholder"
    have "placeholder = butlast placeholder @ [last placeholder]"
      by (simp add: placeholder_def)
    then have "(x # a) @ placeholder @ b =
        ((x # a) @ butlast placeholder) @ (last placeholder # b)"
      by (metis append_Cons append_Nil append_assoc)
    moreover have "length placeholder \<le> length ((x # a) @ butlast placeholder)"
      by (simp add: placeholder_def)
    ultimately have "take (length placeholder) ((x # a) @ placeholder @ b) =
        take (length placeholder) ((x # a) @ butlast placeholder)"
      by (metis append_Nil2 diff_is_0_eq take_0 take_append)
    then have "startsWith ((x # a) @ butlast placeholder) placeholder"
      using sw by (simp only: startsWith_def)
    then show False using Cons.prems(2) startsWith_includes by blast
  qed
  have "\<not> includes_str (a @ butlast placeholder) placeholder"
    using Cons.prems(2) by simp
  then have "replace_from (preceding @ [x]) (a @ placeholder @ b) repl =
     a @ repl @ replace_from ((preceding @ [x]) @ a @ placeholder) b repl"
    using Cons.IH Cons.prems(1) by blast
  then show ?case using ns
    by (subst replace_from.simps) simp
qed

lemma replace_from_before:
  "CHR ''$'' \<notin> set repl \<Longrightarrow> replace_from preceding rest repl = replace_from preceding' rest repl"
proof (induction preceding rest repl arbitrary: preceding' rule: replace_from.induct)
  case (1 preceding rest repl)
  show ?case
  proof (cases "rest = []")
    case True
    then show ?thesis by (simp add: replace_from_Nil)
  next
    case ne: False
    show ?thesis
    proof (cases "startsWith rest placeholder")
      case True
      have "replace_from (preceding @ placeholder) (drop (length placeholder) rest) repl =
            replace_from (preceding' @ placeholder) (drop (length placeholder) rest) repl"
        using "1.IH"(1) [OF ne True "1.prems"] .
      then show ?thesis using ne True "1.prems"
        by (subst replace_from.simps, subst (2) replace_from.simps)
           (simp add: expand_replacement_plain)
    next
      case False
      have "replace_from (preceding @ [hd rest]) (tl rest) repl =
            replace_from (preceding' @ [hd rest]) (tl rest) repl"
        using "1.IH"(2) [OF ne False "1.prems"] .
      then show ?thesis using ne False
        by (subst replace_from.simps, subst (2) replace_from.simps) simp
    qed
  qed
qed

lemma trim_nonblank: "trim s \<noteq> [] \<longleftrightarrow> (\<exists>c \<in> set s. \<not> is_js_space c)"
proof
  assume "trim s \<noteq> []"
  then have "dropWhile is_js_space (rev (dropWhile is_js_space s)) \<noteq> []"
    by (simp add: trim_def trimEnd_def trimStart_def)
  then obtain c where "c \<in> set (dropWhile is_js_space s)" "\<not> is_js_space c"
    by (auto simp: dropWhile_eq_Nil_conv)
  then show "\<exists>c \<in> set s. \<not> is_js_space c"
    using set_dropWhileD by fast
next
  assume "\<exists>c \<in> set s. \<not> is_js_space c"
  then have ne: "dropWhile is_js_space s \<noteq> []"
    by (simp add: dropWhile_eq_Nil_conv)
  then have "\<not> is_js_space (hd (dropWhile is_js_space s))"
    by (rule hd_dropWhile)
  moreover have "hd (dropWhile is_js_space s) \<in> set (rev (dropWhile is_js_space s))"
    using ne by simp
  ultimately have "dropWhile is_js_space (rev (dropWhile is_js_space s)) \<noteq> []"
    by (auto simp: dropWhile_eq_Nil_conv)
  then show "trim s \<noteq> []"
    by (simp add: trim_def trimEnd_def trimStart_def)
qed

text \<open>
  C8. For a user language without a dollar sign (every language tag is one): the system
  message has the role \<^verbatim>\<open>system\<close> and, as content, the configured prompt with the
  placeholder replaced, followed by the rendered pages. The replacement leaves a prompt
  without the placeholder as it is, and turns a prompt whose first occurrence of the
  placeholder comes after \<open>a\<close> into \<open>a\<close>, the language, and the replacement of what follows
  the occurrence. The processed list is the stripped list with the system message in front
  when the content has a character that is not white space and the list is empty or does
  not begin with a system message; it is the stripped list alone otherwise.
\<close>

theorem system_message_composition:
  assumes "CHR ''$'' \<notin> set (userLanguage ps)"
  shows "role (systemMessage env ps) = ''system'' \<and>
    content (systemMessage env ps) =
      Str (replace_userLanguage
             (case systemPrompt (apiConfig ps) of None \<Rightarrow> [] | Some p \<Rightarrow> p) (userLanguage ps)
           @ (case webpageInfo ps of
                Some pages \<Rightarrow> join ''\<newline>\<newline>---\<newline>'' (map (render_page env) pages)
              | None \<Rightarrow> [])) \<and>
    (\<not> includes_str prompt placeholder \<longrightarrow>
       replace_userLanguage prompt (userLanguage ps) = prompt) \<and>
    (\<not> includes_str (a @ butlast placeholder) placeholder \<longrightarrow>
       replace_userLanguage (a @ placeholder @ b) (userLanguage ps) =
         a @ userLanguage ps @ replace_userLanguage b (userLanguage ps)) \<and>
    processedMessages env ps =
      (if (\<exists>c \<in> set (systemMessage_text env ps). \<not> is_js_space c) \<and>
          (param_messages ps = [] \<or> role (hd (param_messages ps)) \<noteq> ''system'')
       then systemMessage env ps # map message.truncate (param_messages ps)
       else map message.truncate (param_messages ps))"
proof (intro conjI impI)
  show "role (systemMessage env ps) = ''system''"
    by (simp add: systemMessage_def Let_def)
  show "content (systemMessage env ps) =
      Str (replace_userLanguage
             (case systemPrompt (apiConfig ps) of None \<Rightarrow> [] | Some p \<Rightarrow> p) (userLanguage ps)
           @ (case webpageInfo ps of
                Some pages \<Rightarrow> join ''\<newline>\<newline>---\<newline>'' (map (render_page env) pages)
              | None \<Rightarrow> []))"
    by (simp add: systemMessage_def Let_def)
  show "replace_userLanguage prompt (userLanguage ps) = prompt"
    if "\<not> includes_str prompt placeholder"
    using that by (simp add: replace_userLanguage_def replace_from_absent)
  show "replace_userLanguage (a @ placeholder @ b) (userLanguage ps) =
         a @ userLanguage ps @ replace_userLanguage b (userLanguage ps)"
    if "\<not> includes_str (a @ butlast placeholder) placeholder"
    using that assms replace_from_first [of "userLanguage ps" a "[]" b]
      replace_from_before [of "userLanguage ps" "a @ placeholder" b "[]"]
    by (simp add: replace_userLanguage_def)
  have "role (map message.truncate (param_messages ps) ! 0) = role (hd (param_messages ps))"
    if "param_messages ps \<noteq> []"
    using that by (cases "param_messages ps") (simp_all add: message.truncate_def)
  then show "processedMessages env ps =
      (if (\<exists>c \<in> set (systemMessage_text env ps). \<not> is_js_space c) \<and>
          (param_messages ps = [] \<or> role (hd (param_messages ps)) \<noteq> ''system'')
       then systemMessage env ps # map message.truncate (param_messages ps)
       else map message.truncate (param_messages ps))"
    unfolding processedMessages_def Let_def trim_nonblank by auto
qed

theorem system_message_composition_witness:
  "processedMessages sample_env sample_params =
     [\<lparr>role = ''system'', content = Str ''Reply in en-US.''\<rparr>,
      \<lparr>role = ''user'', content = Str ''hi''\<rparr>]"
proof -
  have d: "CHR ''$'' \<notin> set (userLanguage sample_params)"
    by (simp add: sample_params_def)
  note t = system_message_composition [OF d, of sample_env "''.''" "''Reply in ''" "''.''"]
  have 1: "replace_userLanguage ''.'' ''en-US'' = ''.''"
    using t by (simp add: sample_params_def placeholder_def startsWith_def)
  have 2: "replace_userLanguage ''Reply in {{userLanguage}}.'' ''en-US'' = ''Reply in en-US.''"
    using t 1 by (simp add: sample_params_def placeholder_def startsWith_def)
  have 3: "content (systemMessage sample_env sample_params) = Str ''Reply in en-US.''"
    using t 2 by (simp add: sample_params_def)
  have 4: "role (systemMessage sample_env sample_params) = ''system''"
    using t by simp
  have 5: "systemMessage sample_env sample_params =
      \<lparr>role = ''system'', content = Str ''Reply in en-US.''\<rparr>"
    using 3 4 by (intro message.equality) simp_all
  have 6: "systemMessage_text sample_env sample_params = ''Reply in en-US.''"
    using 3 by (simp add: systemMessage_text_def)
  have 7: "\<not> is_js_space CHR ''R''"
    by (simp add: is_js_space_def)
  have 8: "processedMessages sample_env sample_params =
      systemMessage sample_env sample_params # map message.truncate (param_messages sample_params)"
    using t 6 7 by (simp add: sample_params_def)
  show ?thesis
    using 8 5 by (simp add: sample_params_def message.truncate_def)
qed

section \<open>Facts about the stream\<close>

lemma read_loop_append:
  "read_loop cfg pre s = Awaiting s1 \<Longrightarrow> read_loop cfg (pre @ evs) s = read_loop cfg evs s1"
  by (induction cfg pre s rule: read_loop.induct) (auto split: completion.splits)

lemma newlineIndex_line:
  "CHR 0x0A \<notin> set line \<Longrightarrow> newlineIndex (line @ CHR 0x0A # rest) = length line"
  by (induction line) (auto simp: newlineIndex_def)

lemma drain_line:
  "CHR 0x0A \<notin> set line \<Longrightarrow>
   drain cfg now (line @ CHR 0x0A # rest) s =
     (case handle_line cfg now line s of
        Throw e s' \<Rightarrow> Throw e (s'\<lparr>buffer := rest\<rparr>)
      | Normal s' \<Rightarrow> drain cfg now rest s')"
  by (subst drain.simps) (simp add: newlineIndex_line split: completion.split)

lemma drain_no_line:
  "CHR 0x0A \<notin> set buf \<Longrightarrow> drain cfg now buf s = Normal (s\<lparr>buffer := buf\<rparr>)"
  by (subst drain.simps) simp



lemma surface_throws:
  "surface cfg now s = Throw e s' \<Longrightarrow> e = misfiled_error \<and> s' = s"
  by (auto simp: surface_def Let_def split: if_splits)


lemma error_codes:
  "err_code syntax_error = None" "err_code type_error = None"
  "err_code misfiled_error = Some ''CEREBR_MISFILED_THINK_SILENTLY''"
  "err_name misfiled_error = ''Error''"
  by (simp_all add: syntax_error_def type_error_def misfiled_error_def)



lemma startsWith_antisym: "startsWith a b \<Longrightarrow> startsWith b a \<Longrightarrow> a = b"
  by (auto simp: startsWith_iff)

lemma openai_delta_extract:
  "sf_format cfg \<noteq> ''gemini'' \<Longrightarrow> sf_format cfg \<noteq> ''claude'' \<Longrightarrow> c \<noteq> [] \<Longrightarrow>
   extract_delta cfg (openai_delta c) m =
     Normal (m\<lparr>acc_content := acc_content m @ to_String (sf_env cfg) (JStr c)\<rparr>, True)"
  by (simp add: extract_delta_def extract_openai_def openai_delta_def)

lemma surface_result:
  "(case surface cfg now s of
      Normal s' \<Rightarrow> Normal s'
    | Throw e s' \<Rightarrow>
        if err_code e = Some ''CEREBR_MISFILED_THINK_SILENTLY'' then Throw e s'
        else Normal (s'\<lparr>trace := trace s' @ [ConsoleError e]\<rparr>)) = surface cfg now s"
  by (cases "surface cfg now s") (auto dest: surface_throws simp: error_codes)

lemma openai_data_line:
  assumes "sf_format cfg \<noteq> ''gemini''" "sf_format cfg \<noteq> ''claude''"
    and "JSON_parse (sf_env cfg) d = Some (openai_delta c)" and "c \<noteq> []"
    and "to_String (sf_env cfg) (JStr c) = c" and "d \<noteq> ''[DONE]''"
  shows "handle_line cfg now (''data: '' @ d) s =
     surface cfg now
       (s\<lparr>currentMessage := (currentMessage s)\<lparr>acc_content := acc_content (currentMessage s) @ c\<rparr>\<rparr>)"
  using assms
  by (simp add: handle_line_def startsWith_def try_block_def openai_delta_extract surface_result)

lemma surface_suppressed:
  assumes "sf_detect cfg" "sf_prefixes cfg = [p]" "\<not> didDispatchAnyUpdate s"
    and "acc_reasoning_content (currentMessage s) = []"
    and "toLowerCase (trimStart (acc_content (currentMessage s))) \<noteq> p"
    and "startsWith p (toLowerCase (trimStart (acc_content (currentMessage s))))"
  shows "surface cfg now s = Normal s"
  using assms startsWith_antisym by (auto simp: surface_def Let_def)

lemma surface_tripped:
  assumes "sf_detect cfg" "sf_prefixes cfg = [p]" "\<not> didDispatchAnyUpdate s"
    and "acc_reasoning_content (currentMessage s) = []"
    and "startsWith (toLowerCase (trimStart (acc_content (currentMessage s)))) p"
  shows "surface cfg now s = Throw misfiled_error s"
  using assms by (auto simp: surface_def Let_def)

lemma normalized_examples:
  "toLowerCase (trimStart ''t'') = ''t''"
  "toLowerCase (trimStart ''thi'') = ''thi''"
  "toLowerCase (trimStart ''think is wrong'') = ''think is wrong''"
  by code_simp+

lemma sample_parses:
  "JSON_parse (sf_env sample_config) (openai_payload ''t'') = Some (openai_delta ''t'')"
  "JSON_parse (sf_env sample_config) (openai_payload ''hi'') = Some (openai_delta ''hi'')"
  "JSON_parse (sf_env sample_config) (openai_payload ''nk is wrong'') =
     Some (openai_delta ''nk is wrong'')"
  by code_simp+

lemma dispatched_append: "dispatched (a @ b) = dispatched a @ dispatched b"
  by (induction a rule: dispatched.induct) simp_all

section \<open>The guard against misfiled reasoning\<close>

text \<open>
  C1. On the OpenAI channel, with the guard enabled and the one prefix \<^verbatim>\<open>think\<close>, three
  data lines whose records carry the contents \<^verbatim>\<open>t\<close>, \<^verbatim>\<open>hi\<close> and \<^verbatim>\<open>nk is wrong\<close> make
  \<^verbatim>\<open>processStream\<close> reject with the guard's error; the effects are the fetch and the
  cancelling of the reader, so nothing was handed to the store. After the first two lines
  the loop is waiting with \<^verbatim>\<open>thi\<close> accumulated, no update dispatched and no timer set. In
  general, while the guard is on and the normalised content is a strict prefix of
  \<^verbatim>\<open>think\<close>, an update leaves the state as it is and throws nothing.
\<close>

theorem misfiled_think_guard:
  assumes "sf_format cfg \<noteq> ''gemini''" and "sf_format cfg \<noteq> ''claude''"
    and "sf_detect cfg" and "sf_prefixes cfg = [''think'']"
    and "JSON_parse (sf_env cfg) d1 = Some (openai_delta ''t'')"
    and "JSON_parse (sf_env cfg) d2 = Some (openai_delta ''hi'')"
    and "JSON_parse (sf_env cfg) d3 = Some (openai_delta ''nk is wrong'')"
    and "\<forall>c. to_String (sf_env cfg) (JStr c) = c"
    and "CHR 0x0A \<notin> set (d1 @ d2 @ d3)"
    and "d1 \<noteq> ''[DONE]''" and "d2 \<noteq> ''[DONE]''" and "d3 \<noteq> ''[DONE]''"
  shows "processStream cfg unreadable Got_reader
           (Chunk t1 (''data: '' @ d1 @ ''\<newline>'') #
            Chunk t2 (''data: '' @ d2 @ ''\<newline>'') #
            Chunk t3 (''data: '' @ d3 @ ''\<newline>'') # evs) =
           (Rejected misfiled_error, [Fetch, ReaderCancel]) \<and>
         dispatched (snd (processStream cfg unreadable Got_reader
           (Chunk t1 (''data: '' @ d1 @ ''\<newline>'') #
            Chunk t2 (''data: '' @ d2 @ ''\<newline>'') #
            Chunk t3 (''data: '' @ d3 @ ''\<newline>'') # evs))) = [] \<and>
         read_loop cfg
           [Chunk t1 (''data: '' @ d1 @ ''\<newline>''), Chunk t2 (''data: '' @ d2 @ ''\<newline>'')]
           initial_state =
           Awaiting (initial_state\<lparr>currentMessage :=
                       \<lparr>acc_content = ''thi'', acc_reasoning_content = []\<rparr>\<rparr>) \<and>
         (\<forall>s now. \<not> didDispatchAnyUpdate s \<and> acc_reasoning_content (currentMessage s) = [] \<and>
                  toLowerCase (trimStart (acc_content (currentMessage s))) \<noteq> ''think'' \<and>
                  startsWith ''think'' (toLowerCase (trimStart (acc_content (currentMessage s))))
            \<longrightarrow> surface cfg now s = Normal s)"
proof -
  define s1 where "s1 = initial_state\<lparr>currentMessage :=
      \<lparr>acc_content = ''t'', acc_reasoning_content = []\<rparr>\<rparr>"
  define s2 where "s2 = initial_state\<lparr>currentMessage :=
      \<lparr>acc_content = ''thi'', acc_reasoning_content = []\<rparr>\<rparr>"
  define s3 where "s3 = initial_state\<lparr>currentMessage :=
      \<lparr>acc_content = ''think is wrong'', acc_reasoning_content = []\<rparr>\<rparr>"
  have nl: "CHR 0x0A \<notin> set (''data: '' @ d1)" "CHR 0x0A \<notin> set (''data: '' @ d2)"
    "CHR 0x0A \<notin> set (''data: '' @ d3)"
    using assms(9) by auto
  have str: "to_String (sf_env cfg) (JStr c) = c" for c using assms(8) by simp
  have h1: "handle_line cfg t1 (''data: '' @ d1) initial_state = Normal s1"
  proof -
    have "handle_line cfg t1 (''data: '' @ d1) initial_state = surface cfg t1 s1"
      using openai_data_line [OF assms(1,2) assms(5) _ str assms(10), of t1 initial_state]
      by (simp add: s1_def initial_state_def)
    also have "\<dots> = Normal s1"
      by (rule surface_suppressed [OF assms(3,4)])
         (simp_all add: s1_def initial_state_def normalized_examples startsWith_def)
    finally show ?thesis .
  qed
  have h2: "handle_line cfg t2 (''data: '' @ d2) s1 = Normal s2"
  proof -
    have "handle_line cfg t2 (''data: '' @ d2) s1 = surface cfg t2 s2"
      using openai_data_line [OF assms(1,2) assms(6) _ str assms(11), of t2 s1]
      by (simp add: s1_def s2_def initial_state_def)
    also have "\<dots> = Normal s2"
      by (rule surface_suppressed [OF assms(3,4)])
         (simp_all add: s2_def initial_state_def normalized_examples startsWith_def)
    finally show ?thesis .
  qed
  have h3: "handle_line cfg t3 (''data: '' @ d3) s2 = Throw misfiled_error s3"
  proof -
    have "handle_line cfg t3 (''data: '' @ d3) s2 = surface cfg t3 s3"
      using openai_data_line [OF assms(1,2) assms(7) _ str assms(12), of t3 s2]
      by (simp add: s2_def s3_def initial_state_def)
    also have "\<dots> = Throw misfiled_error s3"
      by (rule surface_tripped [OF assms(3,4)])
         (simp_all add: s3_def initial_state_def normalized_examples startsWith_def)
    finally show ?thesis .
  qed
  have b: "buffer initial_state = []" "buffer s1 = []" "buffer s2 = []"
    "s1\<lparr>buffer := []\<rparr> = s1" "s2\<lparr>buffer := []\<rparr> = s2" "s3\<lparr>buffer := []\<rparr> = s3"
    by (simp_all add: s1_def s2_def s3_def initial_state_def)
  have d1: "drain cfg t1 (buffer initial_state @ ''data: '' @ d1 @ ''\<newline>'') initial_state = Normal s1"
    using drain_line [OF nl(1), of cfg t1 "[]" initial_state] h1 b
    by (simp add: drain_no_line)
  have d2: "drain cfg t2 (buffer s1 @ ''data: '' @ d2 @ ''\<newline>'') s1 = Normal s2"
    using drain_line [OF nl(2), of cfg t2 "[]" s1] h2 b
    by (simp add: drain_no_line)
  have d3: "drain cfg t3 (buffer s2 @ ''data: '' @ d3 @ ''\<newline>'') s2 = Throw misfiled_error s3"
    using drain_line [OF nl(3), of cfg t3 "[]" s2] h3 b
    by simp
  have two: "read_loop cfg
      [Chunk t1 (''data: '' @ d1 @ ''\<newline>''), Chunk t2 (''data: '' @ d2 @ ''\<newline>'')]
      initial_state = Awaiting s2"
    using d1 d2 by simp
  have three: "read_loop cfg
      (Chunk t1 (''data: '' @ d1 @ ''\<newline>'') # Chunk t2 (''data: '' @ d2 @ ''\<newline>'') #
       Chunk t3 (''data: '' @ d3 @ ''\<newline>'') # evs) initial_state = Threw misfiled_error s3"
    using d1 d2 d3 by simp
  have ps: "processStream cfg unreadable Got_reader
           (Chunk t1 (''data: '' @ d1 @ ''\<newline>'') #
            Chunk t2 (''data: '' @ d2 @ ''\<newline>'') #
            Chunk t3 (''data: '' @ d3 @ ''\<newline>'') # evs) =
           (Rejected misfiled_error, [Fetch, ReaderCancel])"
    using three
    by (simp add: processStream_def catch_handler_def error_codes s3_def initial_state_def)
  have sup: "\<forall>s now. \<not> didDispatchAnyUpdate s \<and> acc_reasoning_content (currentMessage s) = [] \<and>
                  toLowerCase (trimStart (acc_content (currentMessage s))) \<noteq> ''think'' \<and>
                  startsWith ''think'' (toLowerCase (trimStart (acc_content (currentMessage s))))
            \<longrightarrow> surface cfg now s = Normal s"
    using surface_suppressed [OF assms(3,4)] by blast
  show ?thesis using ps two sup unfolding s2_def by simp
qed

theorem misfiled_think_guard_witness:
  "processStream sample_config ''unreadable'' Got_reader
     [Chunk 1000 (''data: '' @ openai_payload ''t'' @ ''\<newline>''),
      Chunk 1001 (''data: '' @ openai_payload ''hi'' @ ''\<newline>''),
      Chunk 1002 (''data: '' @ openai_payload ''nk is wrong'' @ ''\<newline>'')] =
     (Rejected misfiled_error, [Fetch, ReaderCancel])"
proof -
  have f: "sf_format sample_config \<noteq> ''gemini''" "sf_format sample_config \<noteq> ''claude''"
    "sf_detect sample_config" "sf_prefixes sample_config = [''think'']"
    by (simp_all add: sample_config_def)
  have s: "\<forall>c. to_String (sf_env sample_config) (JStr c) = c"
    by (simp add: sample_config_def sample_env_def sample_to_String_def)
  have n: "CHR 0x0A \<notin> set (openai_payload ''t'' @ openai_payload ''hi'' @
      openai_payload ''nk is wrong'')"
    by (simp add: openai_payload_def)
  have d: "openai_payload ''t'' \<noteq> ''[DONE]''" "openai_payload ''hi'' \<noteq> ''[DONE]''"
    "openai_payload ''nk is wrong'' \<noteq> ''[DONE]''"
    by (simp_all add: openai_payload_def)
  show ?thesis
    using misfiled_think_guard [OF f sample_parses s n d, of "''unreadable''" 1000 1001 1002 "[]"]
    by simp
qed

section \<open>The last flush\<close>

text \<open>
  C2, as stated: at the end of the stream whatever was accumulated and not yet handed to
  the store is handed over before the accumulator is returned. It is not, when the end is
  read at the clock value of the previous flush: line 360 asks for
  \<^verbatim>\<open>Date.now() - lastUpdateTime > 0\<close>. Here two records come in one chunk at time 1000 and
  the stream ends at 1000; the result is \<^verbatim>\<open>ab\<close>, the store has seen \<^verbatim>\<open>a\<close> only.
\<close>

theorem final_flush_counterexample:
  "fst (processStream sample_config ''unreadable'' Got_reader
     [Chunk 1000 (''data: '' @ openai_payload ''a'' @ ''\<newline>data: '' @ openai_payload ''b''
                  @ ''\<newline>''),
      Done 1000]) =
     Resolved (Some \<lparr>acc_content = ''ab'', acc_reasoning_content = []\<rparr>) \<and>
   dispatched (snd (processStream sample_config ''unreadable'' Got_reader
     [Chunk 1000 (''data: '' @ openai_payload ''a'' @ ''\<newline>data: '' @ openai_payload ''b''
                  @ ''\<newline>''),
      Done 1000])) =
     [\<lparr>acc_content = ''a'', acc_reasoning_content = []\<rparr>] \<and>
   \<lparr>acc_content = ''ab'', acc_reasoning_content = []\<rparr> \<notin>
     set (dispatched (snd (processStream sample_config ''unreadable'' Got_reader
       [Chunk 1000 (''data: '' @ openai_payload ''a'' @ ''\<newline>data: '' @ openai_payload ''b''
                    @ ''\<newline>''),
        Done 1000])))"
  by code_simp

text \<open>
  C2, amended. When the loop has come through the events \<open>pre\<close> and waits in the state
  \<open>s\<close>, there is a store to hand to, and the stream then ends at a clock value later than
  the last flush, \<^verbatim>\<open>processStream\<close> resolves with the accumulator of \<open>s\<close> after handing a
  copy of it to the store and to the callback: the last snapshot the store saw is the
  accumulator returned. No bound relates the end to the last delta, so it holds within the
  interval of 100 too.
\<close>

theorem final_flush:
  assumes "read_loop cfg pre initial_state = Awaiting s"
    and "sf_sink cfg" and "lastUpdateTime s < now"
  shows "processStream cfg unreadable Got_reader (pre @ Done now # post) =
           (Resolved (Some (currentMessage s)),
            trace s @ [UpdateLastMessage (currentMessage s), OnMessageUpdate (currentMessage s),
                       ReaderCancel]) \<and>
         last (dispatched (snd (processStream cfg unreadable Got_reader (pre @ Done now # post))))
           = currentMessage s"
proof -
  have "read_loop cfg (pre @ Done now # post) initial_state =
      Returned (dispatchUpdate cfg now s)"
    using read_loop_append [OF assms(1)] assms(3) by simp
  then have ps: "processStream cfg unreadable Got_reader (pre @ Done now # post) =
           (Resolved (Some (currentMessage s)),
            trace s @ [UpdateLastMessage (currentMessage s), OnMessageUpdate (currentMessage s),
                       ReaderCancel])"
    using assms(2) by (simp add: processStream_def dispatchUpdate_def)
  then show ?thesis by (simp add: dispatched_append)
qed

theorem final_flush_witness:
  "processStream sample_config ''unreadable'' Got_reader
     [Chunk 1000 (''data: '' @ openai_payload ''a'' @ ''\<newline>data: '' @ openai_payload ''b''
                  @ ''\<newline>''),
      Done 1001] =
     (Resolved (Some \<lparr>acc_content = ''ab'', acc_reasoning_content = []\<rparr>),
      [Fetch,
       UpdateLastMessage \<lparr>acc_content = ''a'', acc_reasoning_content = []\<rparr>,
       OnMessageUpdate \<lparr>acc_content = ''a'', acc_reasoning_content = []\<rparr>,
       UpdateLastMessage \<lparr>acc_content = ''ab'', acc_reasoning_content = []\<rparr>,
       OnMessageUpdate \<lparr>acc_content = ''ab'', acc_reasoning_content = []\<rparr>,
       ReaderCancel])"
proof -
  have r: "read_loop sample_config
      [Chunk 1000 (''data: '' @ openai_payload ''a'' @ ''\<newline>data: '' @ openai_payload ''b''
                   @ ''\<newline>'')] initial_state =
      Awaiting \<lparr>buffer = [],
        currentMessage = \<lparr>acc_content = ''ab'', acc_reasoning_content = []\<rparr>,
        lastUpdateTime = 1000, updateTimeout = Some 1100, didDispatchAnyUpdate = True,
        trace = [Fetch,
          UpdateLastMessage \<lparr>acc_content = ''a'', acc_reasoning_content = []\<rparr>,
          OnMessageUpdate \<lparr>acc_content = ''a'', acc_reasoning_content = []\<rparr>]\<rparr>"
    by code_simp
  have k: "sf_sink sample_config" by (simp add: sample_config_def)
  show ?thesis
    using final_flush [OF r k, of 1001 "''unreadable''" "[]"] by simp
qed




section \<open>Malformed records and the guard's error\<close>




section \<open>Cancellation\<close>














end
